theory Spec2Isabelle
  imports Complex_Main
begin

section \<open>The loader (phase 1): JSON values and the row transform\<close>

text \<open>
  The values the streaming parser hands to the \<open>data\<close> handler. \<open>'n\<close> stands for the
  number values other than NaN; how a decimal string denotes one of them is the
  language's concern and enters as the parameter \<open>sd\<close> of \<open>parseFloat\<close>.
  \<open>JUndefined\<close> is what reading an absent property gives.
\<close>

datatype 'n jsnum = NaN | Num 'n

datatype 'n jsval =
    JUndefined
  | JNull
  | JBool bool
  | JNumber "'n jsnum"
  | JString string
  | JArray "'n jsval list"
  | JObject "(string \<times> 'n jsval) list"

text \<open>
  \<open>entry.k\<close> for a value that is neither \<open>null\<close> nor \<open>undefined\<close>: an object gives the
  property (a key written twice keeps its last value), a primitive or an array has
  none of the property names the loader reads.
\<close>

fun property :: "'n jsval \<Rightarrow> string \<Rightarrow> 'n jsval" where
  "property (JObject kvs) k = (case map_of (rev kvs) k of None \<Rightarrow> JUndefined | Some v \<Rightarrow> v)"
| "property v k = JUndefined"

definition nullish :: "'n jsval \<Rightarrow> bool" where
  "nullish v = (v = JNull \<or> v = JUndefined)"

text \<open>
  The language's \<open>parseFloat\<close>: the argument is turned into a string, and the longest
  prefix that is a decimal literal is read; \<open>sd s\<close> is that reading of the string \<open>s\<close>,
  \<open>None\<close> when no prefix is a literal. The strings of \<open>undefined\<close>, \<open>null\<close>, the
  booleans and an object hold no literal. The string of a number reads back as the
  number (the sign of a negative zero apart, which the model does not tell from zero).
  The string of an array is its elements' strings joined by commas, so it reads as its
  first element does, and the empty array as the empty string.
\<close>

fun parseFloat :: "(string \<Rightarrow> 'n option) \<Rightarrow> 'n jsval \<Rightarrow> 'n jsnum" where
  "parseFloat sd (JString s) = (case sd s of None \<Rightarrow> NaN | Some d \<Rightarrow> Num d)"
| "parseFloat sd (JNumber n) = n"
| "parseFloat sd (JArray (v # vs)) = parseFloat sd v"
| "parseFloat sd v = NaN"

type_synonym 'n row = "'n jsval list"

text \<open>The parameter array pushed on the batch (lines 69 to 88), in the order of the
  INSERT statement's eighteen columns.\<close>

definition row_of :: "(string \<Rightarrow> 'n option) \<Rightarrow> 'n jsval \<Rightarrow> 'n row" where
  "row_of sd entry =
    [ property entry ''english_name'',
      property entry ''created_at'',
      property entry ''reported_at'',
      property entry ''cmdrName'',
      property entry ''system'',
      JNumber (parseFloat sd (property entry ''x'')),
      JNumber (parseFloat sd (property entry ''y'')),
      JNumber (parseFloat sd (property entry ''z'')),
      property entry ''body'',
      JNumber (parseFloat sd (property entry ''latitude'')),
      JNumber (parseFloat sd (property entry ''longitude'')),
      property entry ''entryid'',
      property entry ''name'',
      property entry ''category'',
      property entry ''sub_category'',
      property entry ''sub_category_localised'',
      property entry ''region_name'',
      property entry ''id64'' ]"


section \<open>The loader: batches and the store\<close>

text \<open>
  Why \<open>insertData\<close>'s promise is rejected: reading a property of \<open>null\<close> throws a
  \<open>TypeError\<close>, and \<open>pool.query\<close> rejects with the driver's error \<open>'e\<close>.
\<close>

datatype 'e failure = TypeError | QueryError 'e

datatype 'e settled = Resolved | Rejected "'e failure"

text \<open>
  The store as the loader sees it: \<open>q t r\<close> is the outcome of
  \<open>pool.query(insertQuery, r)\<close> when the rows \<open>t\<close> have been inserted before, \<open>None\<close>
  for success (the row is then in the table) and \<open>Some e\<close> for a rejection.
\<close>

type_synonym ('n, 'e) query = "'n row list \<Rightarrow> 'n row \<Rightarrow> 'e option"

text \<open>
  The variables of \<open>insertData\<close>'s closure (\<open>count\<close>, \<open>batch\<close>), the rows inserted so far,
  the batches that were handed to a write loop, whether the stream was destroyed and
  how the promise was settled (\<open>None\<close> while it is pending).
\<close>

record ('n, 'e) loader =
  count :: nat
  batch :: "'n row list"
  inserted :: "'n row list"
  flushes :: "'n row list list"
  destroyed :: bool
  promise :: "'e settled option"

definition batchSize :: nat where
  "batchSize = 1000"

definition start :: "('n, 'e) loader" where
  "start = \<lparr> count = 0, batch = [], inserted = [], flushes = [],
             destroyed = False, promise = None \<rparr>"

text \<open>\<open>resolve\<close> and \<open>reject\<close> settle a pending promise and leave a settled one alone.\<close>

definition settle :: "'e settled \<Rightarrow> 'e settled option \<Rightarrow> 'e settled option" where
  "settle s p = (case p of None \<Rightarrow> Some s | Some s' \<Rightarrow> Some s')"

text \<open>\<open>for (const item of batch) await pool.query(insertQuery, item)\<close>: one insert after
  the other, stopping at the first rejection. The result is the table and the error.\<close>

fun insert_all :: "('n, 'e) query \<Rightarrow> 'n row list \<Rightarrow> 'n row list \<Rightarrow> 'n row list \<times> 'e option" where
  "insert_all q t [] = (t, None)"
| "insert_all q t (r # rs) =
     (case q t r of Some e \<Rightarrow> (t, Some e) | None \<Rightarrow> insert_all q (t @ [r]) rs)"

text \<open>
  The \<open>data\<close> handler (lines 62 to 108). The stream is paused while a full batch is
  written and delivers nothing until it is resumed, so the handler runs to its end
  before the next entry arrives; the progress line on the console is not modelled.
\<close>

definition on_data ::
  "(string \<Rightarrow> 'n option) \<Rightarrow> ('n, 'e) query \<Rightarrow> ('n, 'e) loader \<Rightarrow> 'n jsval \<Rightarrow> ('n, 'e) loader" where
  "on_data sd q st entry =
    (if nullish entry then
       st\<lparr> destroyed := True, promise := settle (Rejected TypeError) (promise st) \<rparr>
     else if property entry ''hud_category'' \<noteq> JString ''Biology'' then st
     else
       let st1 = st\<lparr> batch := batch st @ [row_of sd entry], count := count st + 1 \<rparr> in
       if length (batch st1) \<ge> batchSize then
         (case insert_all q (inserted st1) (batch st1) of
            (t, Some e) \<Rightarrow>
              st1\<lparr> inserted := t, flushes := flushes st1 @ [batch st1], destroyed := True,
                   promise := settle (Rejected (QueryError e)) (promise st1) \<rparr>
          | (t, None) \<Rightarrow>
              st1\<lparr> inserted := t, flushes := flushes st1 @ [batch st1], batch := [] \<rparr>)
       else st1)"

text \<open>The entries in the order the stream delivers them; a destroyed stream delivers
  no more.\<close>

fun deliver ::
  "(string \<Rightarrow> 'n option) \<Rightarrow> ('n, 'e) query \<Rightarrow> ('n, 'e) loader \<Rightarrow> 'n jsval list \<Rightarrow> ('n, 'e) loader" where
  "deliver sd q st [] = st"
| "deliver sd q st (entry # es) =
     (if destroyed st then st else deliver sd q (on_data sd q st entry) es)"

text \<open>The \<open>end\<close> handler (lines 110 to 121): the rest of the batch is written, whatever
  its length.\<close>

definition on_end :: "('n, 'e) query \<Rightarrow> ('n, 'e) loader \<Rightarrow> ('n, 'e) loader" where
  "on_end q st =
    (case insert_all q (inserted st) (batch st) of
       (t, Some e) \<Rightarrow>
         st\<lparr> inserted := t, flushes := flushes st @ [batch st],
              promise := settle (Rejected (QueryError e)) (promise st) \<rparr>
     | (t, None) \<Rightarrow>
         st\<lparr> inserted := t, flushes := flushes st @ [batch st],
              promise := settle Resolved (promise st) \<rparr>)"

text \<open>
  \<open>insertData\<close> on a document whose root holds the values \<open>doc\<close>: the streaming parser
  passes on every value but \<open>null\<close>, then ends unless the stream was destroyed. A
  document that does not parse is outside the model.
\<close>

definition insertData ::
  "(string \<Rightarrow> 'n option) \<Rightarrow> ('n, 'e) query \<Rightarrow> 'n jsval list \<Rightarrow> ('n, 'e) loader" where
  "insertData sd q doc =
    (let st = deliver sd q start (filter (\<lambda>v. \<not> nullish v) doc)
     in if destroyed st then st else on_end q st)"

text \<open>The accepted records of a document, and the rows they become.\<close>

definition is_biology :: "'n jsval \<Rightarrow> bool" where
  "is_biology entry = (property entry ''hud_category'' = JString ''Biology'')"

definition accepted_rows :: "(string \<Rightarrow> 'n option) \<Rightarrow> 'n jsval list \<Rightarrow> 'n row list" where
  "accepted_rows sd doc = map (row_of sd) (filter is_biology doc)"

section \<open>The load entry point\<close>

text \<open>
  How a process ends: \<open>main\<close>'s promise is fulfilled and the process ends by itself with
  status 0, or \<open>process.exit\<close> was called with a status, or \<open>main\<close>'s promise is rejected
  where nothing handles it.
\<close>

datatype 'e ending = Fulfilled | Exited nat | UnhandledRejection "'e failure"

datatype 'e console = Log string | Error string "'e failure"

text \<open>\<open>createTable\<close> of the load phase (lines 9 to 41): \<open>ct\<close> is the outcome of
  \<open>pool.query(createTableQuery)\<close>; a rejection is logged and thrown again.\<close>

definition createTable :: "'e option \<Rightarrow> 'e console list \<times> 'e failure option" where
  "createTable ct =
    (case ct of
       None \<Rightarrow> ([Log ''Table created successfully''], None)
     | Some e \<Rightarrow> ([Error ''Error creating table:'' (QueryError e)], Some (QueryError e)))"

text \<open>\<open>main\<close> of the load phase (lines 129 to 139): whatever \<open>createTable\<close> or
  \<open>insertData\<close> throws is caught and logged, the pool is closed, and \<open>main\<close> returns.
  The console lines are those of \<open>createTable\<close> and \<open>main\<close>.\<close>

definition main_load ::
  "(string \<Rightarrow> 'n option) \<Rightarrow> 'e option \<Rightarrow> ('n, 'e) query \<Rightarrow> 'n jsval list
     \<Rightarrow> 'e console list \<times> 'e ending" where
  "main_load sd ct q doc =
    (case createTable ct of
       (out, Some err) \<Rightarrow> (out @ [Error ''Error in main process:'' err], Fulfilled)
     | (out, None) \<Rightarrow>
         (case promise (insertData sd q doc) of
            Some (Rejected err) \<Rightarrow> (out @ [Error ''Error in main process:'' err], Fulfilled)
          | _ \<Rightarrow> (out @ [Log ''Data insertion completed successfully''], Fulfilled)))"

section \<open>The database\<close>

text \<open>
  SQL values, rows as association lists from column names, and a table with its
  columns, its rows and the next value of the sequence behind its \<open>SERIAL\<close> column.
  Column types, lengths and foreign keys are not modelled.
\<close>

datatype val = Null | Txt string | Integer int | Numeric rat | NumericNaN

type_synonym tuple = "(string \<times> val) list"

record table =
  cols :: "string list"
  rows :: "tuple list"
  nextval :: int

record db =
  codex_entries :: "table option"
  species :: "table option"
  regions :: "table option"
  systems :: "table option"
  bodies :: "table option"

datatype sqlerr =
    UndefinedTable string
  | UndefinedColumn string
  | DuplicateTable string
  | DuplicateColumn string

definition col :: "tuple \<Rightarrow> string \<Rightarrow> val" where
  "col r c = (case map_of r c of None \<Rightarrow> Null | Some v \<Rightarrow> v)"

text \<open>\<open>a = b\<close> in a join or a \<open>WHERE\<close> clause: never true of a null.\<close>

definition sql_eq :: "val \<Rightarrow> val \<Rightarrow> bool" where
  "sql_eq a b = (a \<noteq> Null \<and> b \<noteq> Null \<and> a = b)"

definition new_table :: "string list \<Rightarrow> table" where
  "new_table cs = \<lparr> cols = cs, rows = [], nextval = 1 \<rparr>"

definition drop_column :: "string \<Rightarrow> table \<Rightarrow> table" where
  "drop_column c t =
    t\<lparr> cols := removeAll c (cols t), rows := map (filter (\<lambda>(k, v). k \<noteq> c)) (rows t) \<rparr>"

definition drop_columns :: "string list \<Rightarrow> table \<Rightarrow> table" where
  "drop_columns cs t = fold drop_column cs t"

definition add_column :: "string \<Rightarrow> table \<Rightarrow> sqlerr + table" where
  "add_column c t =
    (if c \<in> set (cols t) then Inl (DuplicateColumn c)
     else Inr (t\<lparr> cols := cols t @ [c], rows := map (\<lambda>r. r @ [(c, Null)]) (rows t) \<rparr>))"

fun add_columns :: "string list \<Rightarrow> table \<Rightarrow> sqlerr + table" where
  "add_columns [] t = Inr t"
| "add_columns (c # cs) t =
     (case add_column c t of Inl e \<Rightarrow> Inl e | Inr t' \<Rightarrow> add_columns cs t')"

text \<open>The first of the columns \<open>cs\<close> that the table lacks.\<close>

definition missing_column :: "string list \<Rightarrow> table \<Rightarrow> string option" where
  "missing_column cs t = find (\<lambda>c. c \<notin> set (cols t)) cs"

section \<open>Phase 1: the flat table\<close>

text \<open>The columns of the statement \<open>createTableQuery\<close> (lines 10 to 32). Unquoted,
  \<open>cmdrName\<close> is the column \<open>cmdrname\<close>.\<close>

definition created_columns :: "string list" where
  "created_columns =
     [''id'', ''english_name'', ''created_at'', ''reported_at'', ''cmdrname'',
      ''system'', ''x'', ''y'', ''z'', ''body'', ''latitude'', ''longitude'',
      ''entryid'', ''name'', ''category'', ''sub_category'',
      ''sub_category_localised'', ''region_name'', ''id64'']"

text \<open>\<open>CREATE TABLE IF NOT EXISTS\<close> leaves an existing table as it is.\<close>

definition createTableQuery :: "db \<Rightarrow> db" where
  "createTableQuery d =
    (case codex_entries d of
       Some t \<Rightarrow> d
     | None \<Rightarrow> d\<lparr> codex_entries := Some (new_table created_columns) \<rparr>)"

section \<open>Phase 2: the normalizer\<close>

definition foreign_keys :: "string list" where
  "foreign_keys = [''species_id'', ''system_id'', ''body_id'']"

text \<open>
  \<open>createNormalizedTables\<close> (lines 146 to 206). The first query drops the three
  reference columns and the four tables where they exist; the second creates the
  tables, which fails where one exists, and adds the reference columns, which fails
  without the flat table or where a column exists.
\<close>

definition createNormalizedTables :: "db \<Rightarrow> sqlerr + db" where
  "createNormalizedTables d =
    (let d1 = d\<lparr> codex_entries := map_option (drop_columns foreign_keys) (codex_entries d),
                 bodies := None, systems := None, species := None, regions := None \<rparr>
     in case codex_entries d1 of
          None \<Rightarrow> Inl (UndefinedTable ''codex_entries'')
        | Some t \<Rightarrow>
            (case add_columns foreign_keys t of
               Inl e \<Rightarrow> Inl e
             | Inr t' \<Rightarrow>
                 Inr (d1\<lparr> species := Some (new_table [''id'', ''english_name'']),
                         regions := Some (new_table [''id'', ''name'', ''name_localised'']),
                         systems := Some (new_table
                                      [''id'', ''name'', ''x'', ''y'', ''z'', ''region_id'']),
                         bodies := Some (new_table [''id'', ''name'', ''system_id'']),
                         codex_entries := Some t' \<rparr>)))"

text \<open>The probe of \<open>information_schema.columns\<close> (lines 211 to 239): a column of a
  table that does not exist is reported absent.\<close>

definition has_column :: "db \<Rightarrow> string \<Rightarrow> bool" where
  "has_column d c = (case codex_entries d of None \<Rightarrow> False | Some t \<Rightarrow> c \<in> set (cols t))"

text \<open>
  \<open>INSERT INTO t (tc) SELECT ... ON CONFLICT (key) DO NOTHING\<close>, one proposed row after
  the other: each takes the next value of the sequence for \<open>id\<close>, also when it is then
  skipped because a row of the table, old or just inserted, has its key. Columns that are
  not listed are null.
\<close>

definition proposed :: "table \<Rightarrow> string list \<Rightarrow> val list \<Rightarrow> tuple" where
  "proposed t tc vs =
    map (\<lambda>c. (c, if c = ''id'' then Integer (nextval t)
                  else (case map_of (zip tc vs) c of None \<Rightarrow> Null | Some v \<Rightarrow> v))) (cols t)"

definition conflicts :: "string list \<Rightarrow> tuple \<Rightarrow> tuple \<Rightarrow> bool" where
  "conflicts key r r' = (\<forall>c\<in>set key. sql_eq (col r c) (col r' c))"

fun insert_on_conflict :: "string list \<Rightarrow> string list \<Rightarrow> val list list \<Rightarrow> table \<Rightarrow> table" where
  "insert_on_conflict key tc [] t = t"
| "insert_on_conflict key tc (vs # vss) t =
     (let r = proposed t tc vs; t1 = t\<lparr> nextval := nextval t + 1 \<rparr>
      in if \<exists>r'\<in>set (rows t). conflicts key r r'
         then insert_on_conflict key tc vss t1
         else insert_on_conflict key tc vss (t1\<lparr> rows := rows t1 @ [r] \<rparr>))"

text \<open>
  \<open>SELECT DISTINCT\<close> gives each tuple once, in an order that SQL leaves to the engine:
  the normalizer's functions take the engine's choice as the parameter \<open>dst\<close>.
\<close>

type_synonym distinct_order = "val list list \<Rightarrow> val list list"


text \<open>Lines 241 to 253: the distinct species names that are not null, inserted into
  \<open>species (english_name)\<close>.\<close>

definition species_select :: "distinct_order \<Rightarrow> table \<Rightarrow> val list list" where
  "species_select dst ce =
    dst (map (\<lambda>r. [col r ''english_name''])
          (filter (\<lambda>r. col r ''english_name'' \<noteq> Null) (rows ce)))"

definition normalize_species :: "distinct_order \<Rightarrow> db \<Rightarrow> sqlerr + db" where
  "normalize_species dst d =
    (if has_column d ''english_name'' then
       (case (species d, codex_entries d) of
          (Some sp, Some ce) \<Rightarrow>
            Inr (d\<lparr> species := Some (insert_on_conflict [''english_name''] [''english_name'']
                                      (species_select dst ce) sp) \<rparr>)
        | _ \<Rightarrow> Inl (UndefinedTable ''species''))
     else Inr d)"

text \<open>Lines 255 to 277: the statement with the localised name where the probe found
  that column, the statement without it otherwise.\<close>

definition regions_select_localised :: "distinct_order \<Rightarrow> table \<Rightarrow> val list list" where
  "regions_select_localised dst ce =
    dst (map (\<lambda>r. [col r ''region_name'', col r ''region_name_localised''])
          (filter (\<lambda>r. col r ''region_name'' \<noteq> Null) (rows ce)))"

definition regions_select :: "distinct_order \<Rightarrow> table \<Rightarrow> val list list" where
  "regions_select dst ce =
    dst (map (\<lambda>r. [col r ''region_name''])
          (filter (\<lambda>r. col r ''region_name'' \<noteq> Null) (rows ce)))"

definition normalize_regions :: "distinct_order \<Rightarrow> db \<Rightarrow> sqlerr + db" where
  "normalize_regions dst d =
    (if has_column d ''region_name'' then
       (case (regions d, codex_entries d) of
          (Some rg, Some ce) \<Rightarrow>
            Inr (d\<lparr> regions := Some
              (if has_column d ''region_name_localised''
               then insert_on_conflict [''name''] [''name'', ''name_localised'']
                      (regions_select_localised dst ce) rg
               else insert_on_conflict [''name''] [''name''] (regions_select dst ce) rg) \<rparr>)
        | _ \<Rightarrow> Inl (UndefinedTable ''regions''))
     else Inr d)"

text \<open>The rows of \<open>codex_entries ce LEFT JOIN regions r ON ce.region_name = r.name\<close>
  for one flat row: one for each matching region, or one with a null region.\<close>

definition region_ids :: "table \<Rightarrow> tuple \<Rightarrow> val list" where
  "region_ids rg r =
    (case filter (\<lambda>g. sql_eq (col r ''region_name'') (col g ''name'')) (rows rg) of
       [] \<Rightarrow> [Null]
     | gs \<Rightarrow> map (\<lambda>g. col g ''id'') gs)"

definition systems_select_regions :: "distinct_order \<Rightarrow> table \<Rightarrow> table \<Rightarrow> val list list" where
  "systems_select_regions dst rg ce =
    dst (concat (map (\<lambda>r. map (\<lambda>g. [col r ''system'', col r ''x'', col r ''y'', col r ''z'', g])
                              (region_ids rg r))
                   (filter (\<lambda>r. col r ''system'' \<noteq> Null) (rows ce))))"

definition systems_select :: "distinct_order \<Rightarrow> table \<Rightarrow> val list list" where
  "systems_select dst ce =
    dst (map (\<lambda>r. [col r ''system'', col r ''x'', col r ''y'', col r ''z''])
          (filter (\<lambda>r. col r ''system'' \<noteq> Null) (rows ce)))"

text \<open>Lines 279 to 317. Both statements read \<open>x\<close>, \<open>y\<close> and \<open>z\<close>, which the probe does
  not cover.\<close>

definition normalize_systems :: "distinct_order \<Rightarrow> db \<Rightarrow> sqlerr + db" where
  "normalize_systems dst d =
    (if has_column d ''system'' then
       (case (systems d, codex_entries d) of
          (Some sy, Some ce) \<Rightarrow>
            (case missing_column [''x'', ''y'', ''z''] ce of
               Some c \<Rightarrow> Inl (UndefinedColumn c)
             | None \<Rightarrow>
                 if has_column d ''region_name'' then
                   (case regions d of
                      None \<Rightarrow> Inl (UndefinedTable ''regions'')
                    | Some rg \<Rightarrow>
                        Inr (d\<lparr> systems := Some
                          (insert_on_conflict [''name'']
                             [''name'', ''x'', ''y'', ''z'', ''region_id'']
                             (systems_select_regions dst rg ce) sy) \<rparr>))
                 else
                   Inr (d\<lparr> systems := Some
                     (insert_on_conflict [''name''] [''name'', ''x'', ''y'', ''z'']
                        (systems_select dst ce) sy) \<rparr>))
        | _ \<Rightarrow> Inl (UndefinedTable ''systems''))
     else Inr d)"

text \<open>Lines 319 to 337: \<open>codex_entries ce JOIN systems s ON ce.system = s.name\<close>. The
  statement reads \<open>body\<close>, which the probe does not cover.\<close>

definition bodies_select :: "distinct_order \<Rightarrow> table \<Rightarrow> table \<Rightarrow> val list list" where
  "bodies_select dst sy ce =
    dst (concat (map (\<lambda>r. map (\<lambda>s. [col r ''body'', col s ''id''])
                              (filter (\<lambda>s. sql_eq (col r ''system'') (col s ''name'')) (rows sy)))
                   (filter (\<lambda>r. col r ''body'' \<noteq> Null) (rows ce))))"

definition normalize_bodies :: "distinct_order \<Rightarrow> db \<Rightarrow> sqlerr + db" where
  "normalize_bodies dst d =
    (if has_column d ''system'' then
       (case (bodies d, systems d, codex_entries d) of
          (Some bo, Some sy, Some ce) \<Rightarrow>
            (case missing_column [''body''] ce of
               Some c \<Rightarrow> Inl (UndefinedColumn c)
             | None \<Rightarrow>
                 Inr (d\<lparr> bodies := Some
                   (insert_on_conflict [''name'', ''system_id''] [''name'', ''system_id'']
                      (bodies_select dst sy ce) bo) \<rparr>))
        | _ \<Rightarrow> Inl (UndefinedTable ''bodies''))
     else Inr d)"

text \<open>
  The three correlated subqueries of the \<open>UPDATE\<close> (lines 342 to 353). Each key is
  unique in its table, so a subquery finds one row at most; without a row it is null.
\<close>

definition first_or_null :: "val list \<Rightarrow> val" where
  "first_or_null vs = (case vs of [] \<Rightarrow> Null | v # _ \<Rightarrow> v)"

definition species_ref :: "table \<Rightarrow> tuple \<Rightarrow> val" where
  "species_ref sp r =
    first_or_null (map (\<lambda>s. col s ''id'')
      (filter (\<lambda>s. sql_eq (col s ''english_name'') (col r ''english_name'')) (rows sp)))"

definition system_ref :: "table \<Rightarrow> tuple \<Rightarrow> val" where
  "system_ref sy r =
    first_or_null (map (\<lambda>s. col s ''id'')
      (filter (\<lambda>s. sql_eq (col s ''name'') (col r ''system'')) (rows sy)))"

definition body_ref :: "table \<Rightarrow> table \<Rightarrow> tuple \<Rightarrow> val" where
  "body_ref bo sy r =
    first_or_null (concat (map (\<lambda>b. map (\<lambda>s. col b ''id'')
        (filter (\<lambda>s. sql_eq (col b ''system_id'') (col s ''id'')
                     \<and> sql_eq (col b ''name'') (col r ''body'')
                     \<and> sql_eq (col s ''name'') (col r ''system'')) (rows sy)))
      (rows bo)))"

definition assign :: "string \<Rightarrow> val \<Rightarrow> tuple \<Rightarrow> tuple" where
  "assign c v r = map (\<lambda>(k, w). if k = c then (k, v) else (k, w)) r"

text \<open>
  The \<open>UPDATE\<close> on one row (lines 339 to 369), built from what the probe found: the
  \<open>WHERE\<close> conditions joined by \<open>OR\<close>, and the \<open>SET\<close> clauses, all read from the row as
  it was.
\<close>

definition backfill :: "bool \<Rightarrow> bool \<Rightarrow> table \<Rightarrow> table \<Rightarrow> table \<Rightarrow> tuple \<Rightarrow> tuple" where
  "backfill has_english_name has_system sp sy bo r =
    (if (has_english_name \<and> col r ''english_name'' \<noteq> Null)
        \<or> (has_system \<and> (col r ''system'' \<noteq> Null \<or> col r ''body'' \<noteq> Null))
     then
       (if has_system
        then assign ''body_id'' (body_ref bo sy r) (assign ''system_id'' (system_ref sy r)
               (if has_english_name then assign ''species_id'' (species_ref sp r) r else r))
        else (if has_english_name then assign ''species_id'' (species_ref sp r) r else r))
     else r)"

text \<open>Lines 339 to 371: no statement is sent when the probe found neither column. The
  statement needs the columns and tables that its clauses name.\<close>

definition update_foreign_keys :: "db \<Rightarrow> sqlerr + db" where
  "update_foreign_keys d =
    (let has_english_name = has_column d ''english_name'';
         has_system = has_column d ''system''
     in if \<not> (has_english_name \<or> has_system) then Inr d
        else
          (case codex_entries d of
             None \<Rightarrow> Inl (UndefinedTable ''codex_entries'')
           | Some ce \<Rightarrow>
               (case missing_column
                      ((if has_english_name then [''species_id''] else [])
                       @ (if has_system then [''system_id'', ''body_id'', ''body''] else [])) ce of
                  Some c \<Rightarrow> Inl (UndefinedColumn c)
                | None \<Rightarrow>
                    (case (if has_english_name then species d else Some (new_table []),
                           if has_system then systems d else Some (new_table []),
                           if has_system then bodies d else Some (new_table [])) of
                       (Some sp, Some sy, Some bo) \<Rightarrow>
                         Inr (d\<lparr> codex_entries := Some (ce\<lparr> rows :=
                           map (backfill has_english_name has_system sp sy bo) (rows ce) \<rparr>) \<rparr>)
                     | _ \<Rightarrow> Inl (UndefinedTable ''species'')))))"

text \<open>\<open>normalizeData\<close> (lines 208 to 377): the five statements in order, the first
  failure thrown on.\<close>

definition and_then :: "sqlerr + 'a \<Rightarrow> ('a \<Rightarrow> sqlerr + 'b) \<Rightarrow> sqlerr + 'b" where
  "and_then r f = (case r of Inl e \<Rightarrow> Inl e | Inr x \<Rightarrow> f x)"

definition normalizeData :: "distinct_order \<Rightarrow> db \<Rightarrow> sqlerr + db" where
  "normalizeData dst d =
    and_then (normalize_species dst d) (\<lambda>d1.
    and_then (normalize_regions dst d1) (\<lambda>d2.
    and_then (normalize_systems dst d2) (\<lambda>d3.
    and_then (normalize_bodies dst d3) update_foreign_keys)))"

text \<open>\<open>cleanUpColumns\<close> (lines 379 to 401): \<open>ALTER TABLE\<close> without \<open>IF EXISTS\<close> needs the
  table, each \<open>DROP COLUMN IF EXISTS\<close> passes over a column that is not there.\<close>

definition dropped_columns :: "string list" where
  "dropped_columns =
    [''index_id'', ''hud_category'', ''name'', ''system'', ''x'', ''y'', ''z'', ''body'',
     ''name_localized'', ''category_localized'', ''region_name'', ''region_name_localised'']"

definition cleanUpColumns :: "db \<Rightarrow> sqlerr + db" where
  "cleanUpColumns d =
    (case codex_entries d of
       None \<Rightarrow> Inl (UndefinedTable ''codex_entries'')
     | Some t \<Rightarrow> Inr (d\<lparr> codex_entries := Some (drop_columns dropped_columns t) \<rparr>))"

text \<open>The body of \<open>main\<close>'s \<open>try\<close> (lines 405 to 407), and \<open>main\<close> (lines 403 to 415):
  a failure is logged and the process exits with status 1.\<close>

definition normalize :: "distinct_order \<Rightarrow> db \<Rightarrow> sqlerr + db" where
  "normalize dst d =
    and_then (createNormalizedTables d) (\<lambda>d1.
    and_then (normalizeData dst d1) cleanUpColumns)"

definition main_normalize :: "distinct_order \<Rightarrow> db \<Rightarrow> sqlerr ending" where
  "main_normalize dst d =
    (case normalize dst d of Inl e \<Rightarrow> Exited 1 | Inr d' \<Rightarrow> Fulfilled)"

definition empty_db :: db where
  "empty_db = \<lparr> codex_entries = None, species = None, regions = None,
                systems = None, bodies = None \<rparr>"

section \<open>Auxiliary notions for the proofs and examples\<close>

text \<open>A loader between two \<open>data\<close> events of a run that has not failed: the stream is
  live, the promise pending, the batch below its size, and every accepted record is in
  the table or in the batch.\<close>

definition good :: "('n, 'e) loader \<Rightarrow> bool" where
  "good st = (\<not> destroyed st \<and> promise st = None \<and> length (batch st) < batchSize
              \<and> count st = length (inserted st) + length (batch st))"








text \<open>For the examples: a reading of decimal strings that knows one literal, and a
  document of four values, two of them records of category Biology.\<close>

definition example_sd :: "string \<Rightarrow> rat option" where
  "example_sd s = (if s = ''1.5'' then Some (3 / 2) else None)"

definition example_doc :: "rat jsval list" where
  "example_doc =
    [ JObject [(''hud_category'', JString ''Biology''), (''system'', JString ''Sol''),
               (''body'', JString ''Earth''), (''x'', JString ''1.5''), (''z'', JString ''far'')],
      JObject [(''hud_category'', JString ''Geology''), (''system'', JString ''Sol'')],
      JNull,
      JObject [(''hud_category'', JString ''Biology''), (''system'', JString ''Sol''),
               (''body'', JString ''Mars'')] ]"

text \<open>
  For the examples: a flat table as phase 1 creates it, with two rows of one system
  that differ in \<open>x\<close>; the same without the column \<open>region_name\<close>, and without \<open>body\<close>
  as well; and the database after \<open>createNormalizedTables\<close>.
\<close>

definition example_row :: "int \<Rightarrow> string \<Rightarrow> string \<Rightarrow> string \<Rightarrow> rat \<Rightarrow> tuple" where
  "example_row i en sy bo x =
    [(''id'', Integer i), (''english_name'', Txt en), (''created_at'', Null),
     (''reported_at'', Null), (''cmdrname'', Null), (''system'', Txt sy), (''x'', Numeric x),
     (''y'', Numeric 0), (''z'', Numeric 0), (''body'', Txt bo), (''latitude'', Null),
     (''longitude'', Null), (''entryid'', Null), (''name'', Null), (''category'', Null),
     (''sub_category'', Null), (''sub_category_localised'', Null),
     (''region_name'', Txt ''Inner Orion Spur''), (''id64'', Null)]"

definition example_table :: table where
  "example_table =
     \<lparr> cols = created_columns,
       rows = [example_row 1 ''Bacterium'' ''Sol'' ''Earth'' 0,
               example_row 2 ''Fungoida'' ''Sol'' ''Mars'' 5],
       nextval = 3 \<rparr>"

definition example_flat :: db where
  "example_flat = empty_db\<lparr> codex_entries := Some example_table \<rparr>"




section \<open>The write loop\<close>

lemma insert_all_append:
  "insert_all q t (a @ b) =
     (case insert_all q t a of (t', Some e) \<Rightarrow> (t', Some e) | (t', None) \<Rightarrow> insert_all q t' b)"
  by (induction a arbitrary: t) (auto split: option.splits)

lemma insert_all_prefix:
  "insert_all q t b = (t', r) \<Longrightarrow>
     \<exists>k \<le> length b. t' = t @ take k b \<and> (r = None \<longrightarrow> k = length b)
        \<and> (\<forall>e. r = Some e \<longrightarrow> k < length b \<and> q t' (b ! k) = Some e)
        \<and> (\<forall>j < k. q (t @ take j b) (b ! j) = None)"
proof (induction b arbitrary: t)
  case Nil
  then show ?case by auto
next
  case (Cons a b)
  show ?case
  proof (cases "q t a")
    case None
    with Cons.prems have "insert_all q (t @ [a]) b = (t', r)" by simp
    from Cons.IH[OF this] obtain k where k: "k \<le> length b" "t' = (t @ [a]) @ take k b"
      "r = None \<longrightarrow> k = length b"
      "\<forall>e. r = Some e \<longrightarrow> k < length b \<and> q t' (b ! k) = Some e"
      "\<forall>j < k. q ((t @ [a]) @ take j b) (b ! j) = None" by blast
    have "\<forall>j < Suc k. q (t @ take j (a # b)) ((a # b) ! j) = None"
    proof (intro allI impI)
      fix j assume "j < Suc k"
      then show "q (t @ take j (a # b)) ((a # b) ! j) = None"
        using None k(5) by (cases j) auto
    qed
    with k(1-4) show ?thesis by (intro exI[of _ "Suc k"]) auto
  next
    case (Some e)
    with Cons.prems have "t' = t" "r = Some e" by auto
    with Some show ?thesis by (intro exI[of _ 0]) auto
  qed
qed

lemma insert_all_length:
  "insert_all q t b = (t', r) \<Longrightarrow> length t \<le> length t' \<and> (r = None \<longrightarrow> t' = t @ b)"
  using insert_all_prefix[of q t b t' r] by auto

lemma on_data_step:
  fixes sd :: "string \<Rightarrow> 'n option" and q :: "('n, 'e) query" and st :: "('n, 'e) loader"
  assumes "good st" "\<not> nullish entry"
  defines "st1 \<equiv> on_data sd q st entry"
  defines "r \<equiv> (if is_biology entry then [row_of sd entry] else [])"
  shows "(good st1 \<and> (\<exists>F. flushes st1 = flushes st @ F \<and> (\<forall>b\<in>set F. length b = batchSize)
            \<and> concat F @ batch st1 = batch st @ r
            \<and> insert_all q (inserted st) (concat F) = (inserted st1, None)))
       \<or> (destroyed st1 \<and> count st1 \<le> length (inserted st1) + batchSize
            \<and> (\<exists>e. promise st1 = Some (Rejected (QueryError e))
                 \<and> insert_all q (inserted st) (batch st @ r) = (inserted st1, Some e)))"
proof (cases "is_biology entry")
  case False
  then have "st1 = st" using assms by (simp add: on_data_def is_biology_def)
  moreover have "r = []" using False by (simp add: r_def)
  ultimately show ?thesis using assms(1) by (intro disjI1) (auto intro: exI[of _ "[]"])
next
  case True
  let ?b = "batch st @ [row_of sd entry]"
  have r: "r = [row_of sd entry]" using True by (simp add: r_def)
  show ?thesis
  proof (cases "length ?b \<ge> batchSize")
    case False
    then have "st1 = st\<lparr> batch := ?b, count := count st + 1 \<rparr>"
      using True assms by (simp add: on_data_def is_biology_def Let_def)
    then show ?thesis using assms(1) False r
      by (intro disjI1) (auto simp: good_def intro: exI[of _ "[]"])
  next
    case full: True
    then have len: "length ?b = batchSize" using assms(1) by (simp add: good_def)
    obtain t res where ia: "insert_all q (inserted st) ?b = (t, res)" by fastforce
    show ?thesis
    proof (cases res)
      case None
      then have st1: "st1 = st\<lparr> batch := [], count := count st + 1, inserted := t,
                       flushes := flushes st @ [?b] \<rparr>"
        using True assms full ia by (simp add: on_data_def is_biology_def Let_def)
      have "t = inserted st @ ?b" using insert_all_length[OF ia] None by simp
      then show ?thesis using assms(1) st1 r len ia None
        by (intro disjI1) (auto simp: good_def batchSize_def intro!: exI[of _ "[?b]"])
    next
      case (Some e)
      then have st1: "st1 = st\<lparr> batch := ?b, count := count st + 1, inserted := t,
                       flushes := flushes st @ [?b], destroyed := True,
                       promise := Some (Rejected (QueryError e)) \<rparr>"
        using True assms full ia by (simp add: on_data_def is_biology_def Let_def settle_def good_def)
      have "length (inserted st) \<le> length t" using insert_all_length[OF ia] by simp
      then show ?thesis using assms(1) st1 r len ia Some
        by (intro disjI2) (auto simp: good_def)
    qed
  qed
qed


lemma deliver_destroyed: "destroyed st \<Longrightarrow> deliver sd q st es = st"
  by (cases es) auto

lemma deliver_inv:
  fixes sd :: "string \<Rightarrow> 'n option" and q :: "('n, 'e) query" and st :: "('n, 'e) loader"
  assumes "good st" "\<forall>x\<in>set es. \<not> nullish x"
  defines "st' \<equiv> deliver sd q st es"
  defines "R \<equiv> batch st @ accepted_rows sd es"
  shows "(good st' \<and> (\<exists>F. flushes st' = flushes st @ F \<and> (\<forall>b\<in>set F. length b = batchSize)
            \<and> concat F @ batch st' = R
            \<and> insert_all q (inserted st) (concat F) = (inserted st', None)))
       \<or> (destroyed st' \<and> count st' \<le> length (inserted st') + batchSize
            \<and> (\<exists>e. promise st' = Some (Rejected (QueryError e))
                 \<and> insert_all q (inserted st) R = (inserted st', Some e)))"
  using assms(1,2) unfolding st'_def R_def
proof (induction es arbitrary: st)
  case Nil
  then show ?case by (intro disjI1) (auto simp: accepted_rows_def intro: exI[of _ "[]"])
next
  case (Cons x es)
  let ?r = "if is_biology x then [row_of sd x] else []"
  let ?st1 = "on_data sd q st x"
  have nd: "\<not> destroyed st" using Cons.prems(1) by (simp add: good_def)
  have dl: "deliver sd q st (x # es) = deliver sd q ?st1 es" using nd by simp
  have acc: "accepted_rows sd (x # es) = ?r @ accepted_rows sd es"
    by (simp add: accepted_rows_def)
  from on_data_step[OF Cons.prems(1), of x sd q] Cons.prems(2)
  consider
    (A) F where "good ?st1" "flushes ?st1 = flushes st @ F" "\<forall>b\<in>set F. length b = batchSize"
        "concat F @ batch ?st1 = batch st @ ?r"
        "insert_all q (inserted st) (concat F) = (inserted ?st1, None)"
  | (B) e where "destroyed ?st1" "count ?st1 \<le> length (inserted ?st1) + batchSize"
        "promise ?st1 = Some (Rejected (QueryError e))"
        "insert_all q (inserted st) (batch st @ ?r) = (inserted ?st1, Some e)"
    by auto
  then show ?case
  proof cases
    case A
    let ?st2 = "deliver sd q ?st1 es"
    from Cons.IH[OF A(1)] Cons.prems(2)
    consider
      (AA) G where "good ?st2" "flushes ?st2 = flushes ?st1 @ G" "\<forall>b\<in>set G. length b = batchSize"
        "concat G @ batch ?st2 = batch ?st1 @ accepted_rows sd es"
        "insert_all q (inserted ?st1) (concat G) = (inserted ?st2, None)"
    | (AB) e where "destroyed ?st2" "count ?st2 \<le> length (inserted ?st2) + batchSize"
        "promise ?st2 = Some (Rejected (QueryError e))"
        "insert_all q (inserted ?st1) (batch ?st1 @ accepted_rows sd es) = (inserted ?st2, Some e)"
      by auto
    then show ?thesis
    proof cases
      case AA
      have 1: "concat (F @ G) @ batch ?st2 = batch st @ accepted_rows sd (x # es)"
        using A(4) AA(4) acc by (metis append.assoc concat_append)
      have 2: "insert_all q (inserted st) (concat (F @ G)) = (inserted ?st2, None)"
        using A(5) AA(5) by (simp add: insert_all_append)
      show ?thesis unfolding dl
        using AA(1) A(2,3) AA(2,3) 1 2
        by (intro disjI1 conjI exI[of _ "F @ G"]) auto
    next
      case AB
      have "batch st @ accepted_rows sd (x # es) = concat F @ batch ?st1 @ accepted_rows sd es"
        using A(4) acc by (metis append.assoc)
      then have "insert_all q (inserted st) (batch st @ accepted_rows sd (x # es)) = (inserted ?st2, Some e)"
        using A(5) AB(4) by (simp add: insert_all_append)
      then show ?thesis unfolding dl using AB(1,2,3) by (intro disjI2) auto
    qed
  next
    case B
    have st2: "deliver sd q ?st1 es = ?st1" using B(1) by (rule deliver_destroyed)
    have "insert_all q (inserted st) (batch st @ accepted_rows sd (x # es)) = (inserted ?st1, Some e)"
      using B(4) acc insert_all_append[of q "inserted st" "batch st @ ?r" "accepted_rows sd es"]
      by (simp del: insert_all.simps)
    then show ?thesis unfolding dl st2 using B(1,2,3) by (intro disjI2) auto
  qed
qed


lemma accepted_rows_nullish:
  "accepted_rows sd (filter (\<lambda>v. \<not> nullish v) doc) = accepted_rows sd doc"
proof -
  have "\<And>v. is_biology v \<Longrightarrow> \<not> nullish v"
    by (auto simp: is_biology_def nullish_def)
  then have "filter is_biology (filter (\<lambda>v. \<not> nullish v) doc) = filter is_biology doc"
    by (induction doc) auto
  then show ?thesis by (simp add: accepted_rows_def)
qed

lemma good_start: "good start"
  by (simp add: good_def start_def batchSize_def)

lemma insertData_cases:
  fixes sd :: "string \<Rightarrow> 'n option" and q :: "('n, 'e) query" and doc :: "'n jsval list"
  defines "st \<equiv> insertData sd q doc"
  defines "rs \<equiv> accepted_rows sd doc"
  shows "(\<exists>F b. flushes st = F @ [b] \<and> (\<forall>x\<in>set F. length x = batchSize) \<and> length b < batchSize
            \<and> concat F @ b = rs \<and> inserted st = rs \<and> promise st = Some Resolved
            \<and> insert_all q [] rs = (rs, None) \<and> count st = length rs \<and> \<not> destroyed st)
       \<or> (\<exists>e. promise st = Some (Rejected (QueryError e))
            \<and> insert_all q [] rs = (inserted st, Some e)
            \<and> count st \<le> length (inserted st) + batchSize)"
proof -
  let ?es = "filter (\<lambda>v. \<not> nullish v) doc"
  let ?d = "deliver sd q (start :: ('n, 'e) loader) ?es"
  have R: "batch (start :: ('n, 'e) loader) @ accepted_rows sd ?es = rs"
    by (simp add: start_def rs_def accepted_rows_nullish)
  have s0: "inserted (start :: ('n, 'e) loader) = []" "flushes (start :: ('n, 'e) loader) = []"
    by (simp_all add: start_def)
  from deliver_inv[OF good_start, of ?es sd q] R s0
  consider
    (A) F where "good ?d" "flushes ?d = F" "\<forall>b\<in>set F. length b = batchSize"
        "concat F @ batch ?d = rs" "insert_all q [] (concat F) = (inserted ?d, None)"
  | (B) e where "destroyed ?d" "count ?d \<le> length (inserted ?d) + batchSize"
        "promise ?d = Some (Rejected (QueryError e))"
        "insert_all q [] rs = (inserted ?d, Some e)"
    by auto
  then show ?thesis
  proof cases
    case A
    have nd: "\<not> destroyed ?d" "promise ?d = None" "length (batch ?d) < batchSize"
      "count ?d = length (inserted ?d) + length (batch ?d)"
      using A(1) by (simp_all add: good_def)
    have st: "st = on_end q ?d" using nd(1) by (simp add: st_def insertData_def Let_def)
    have ins: "inserted ?d = concat F" using insert_all_length[OF A(5)] by simp
    obtain t res where ia: "insert_all q (inserted ?d) (batch ?d) = (t, res)" by fastforce
    have whole: "insert_all q [] rs = (t, res)"
      using A(4,5) ia insert_all_append[of q "[]" "concat F" "batch ?d"] by simp
    show ?thesis
    proof (cases res)
      case None
      have t: "t = rs" using insert_all_length[OF ia] None ins A(4) by simp
      have "flushes st = F @ [batch ?d]" "inserted st = rs" "promise st = Some Resolved"
        "count st = length rs" "\<not> destroyed st"
        using st ia None t A(2) nd ins A(4)
        by (auto simp: on_end_def settle_def)
      then show ?thesis using A(3,4) nd(3) whole None t
        by (intro disjI1 exI[of _ F] exI[of _ "batch ?d"]) auto
    next
      case (Some e)
      have "promise st = Some (Rejected (QueryError e))" "inserted st = t" "count st = count ?d"
        using st ia Some nd by (auto simp: on_end_def settle_def)
      moreover have "length (inserted ?d) \<le> length t" using insert_all_length[OF ia] by simp
      ultimately show ?thesis using whole Some nd(3,4)
        by (intro disjI2 exI[of _ e]) auto
    qed
  next
    case B
    have st: "st = ?d" using B(1) by (simp add: st_def insertData_def Let_def)
    show ?thesis unfolding st using B by (intro disjI2) auto
  qed
qed

lemma insert_all_no_failure:
  "(\<forall>k<length b. q (t @ take k b) (b ! k) = None) \<Longrightarrow> insert_all q t b = (t @ b, None)"
proof (induction b arbitrary: t)
  case Nil
  then show ?case by simp
next
  case (Cons a b)
  have a: "q t a = None" using Cons.prems by (auto dest: spec[of _ 0])
  have "\<forall>k<length b. q ((t @ [a]) @ take k b) (b ! k) = None"
  proof (intro allI impI)
    fix k assume "k < length b"
    then have "q (t @ take (Suc k) (a # b)) ((a # b) ! Suc k) = None"
      using Cons.prems by (metis Suc_less_eq length_Cons)
    then show "q ((t @ [a]) @ take k b) (b ! k) = None" by simp
  qed
  from Cons.IH[OF this] a show ?case by simp
qed

lemma insert_all_first_failure:
  assumes "\<forall>k<length pre. q (t @ take k pre) (pre ! k) = None" "q (t @ pre) r = Some e"
  shows "insert_all q t (pre @ r # rest) = (t @ pre, Some e)"
  using insert_all_no_failure[OF assms(1)] assms(2) by (simp add: insert_all_append)

lemma ceiling_batches:
  fixes f r B :: nat
  assumes "r < B"
  shows "\<lceil>real (B * f + r) / real B\<rceil> = int (f + (if r = 0 then 0 else 1))"
proof -
  have B: "0 < B" using assms by simp
  have "real (B * f + r) / real B = real f + real r / real B"
    using B by (simp add: field_simps)
  moreover have "\<lceil>real r / real B\<rceil> = (if r = 0 then 0 else 1)"
  proof (cases "r = 0")
    case True then show ?thesis by simp
  next
    case False
    then have "0 < real r / real B" "real r / real B \<le> 1" using assms B by simp_all
    then show ?thesis using False by (simp add: ceiling_eq_iff)
  qed
  ultimately have "\<lceil>real (B * f + r) / real B\<rceil> = \<lceil>real r / real B + of_int (int f)\<rceil>"
    by (simp add: add.commute)
  also have "\<dots> = \<lceil>real r / real B\<rceil> + int f" by (rule ceiling_add_of_int)
  finally show ?thesis using \<open>\<lceil>real r / real B\<rceil> = (if r = 0 then 0 else 1)\<close> by simp
qed


lemma length_concat_uniform:
  "(\<forall>x\<in>set F. length x = B) \<Longrightarrow> length (concat F) = B * length F"
  by (induction F) auto

lemma filter_nonempty_uniform:
  "(\<forall>x\<in>set F. length x = B) \<Longrightarrow> 0 < B \<Longrightarrow> filter (\<lambda>b. b \<noteq> []) F = F"
  by (induction F) auto


lemma example_rows:
  "accepted_rows example_sd example_doc
     = [row_of example_sd (example_doc ! 0), row_of example_sd (example_doc ! 3)]"
  by (simp add: accepted_rows_def example_doc_def is_biology_def)

lemma deliver_append:
  "deliver sd q st (a @ b) = deliver sd q (deliver sd q st a) b"
proof (induction a arbitrary: st)
  case Nil
  then show ?case by simp
next
  case (Cons x a)
  show ?case
  proof (cases "destroyed st")
    case True
    then show ?thesis by (simp add: deliver_destroyed)
  next
    case False
    then show ?thesis using Cons.IH by simp
  qed
qed

lemma insertData_destroyed:
  assumes "destroyed (insertData sd q doc)"
  shows "insertData sd q (doc @ later) = insertData sd q doc"
proof -
  let ?st = "deliver sd q start (filter (\<lambda>v. \<not> nullish v) doc)"
  have "destroyed (on_end q st) = destroyed st" for st :: "('a, 'b) loader"
    by (simp add: on_end_def split: prod.splits option.splits)
  then have d: "destroyed ?st" using assms by (simp add: insertData_def Let_def split: if_splits)
  have "deliver sd q start (filter (\<lambda>v. \<not> nullish v) (doc @ later)) = ?st"
    using d by (simp add: deliver_append deliver_destroyed)
  then show ?thesis using d by (simp add: insertData_def Let_def)
qed

section \<open>Properties of the loader\<close>



text \<open>
  C3. With \<open>N\<close> accepted records and no refused write, the write loop runs over
  \<open>\<lceil>N / 1000\<rceil>\<close> batches that hold a row, the last of them the partial batch
  written at the end of the input; the loop at the end is entered also when the batch
  is empty and then writes nothing, which makes \<open>N div 1000 + 1\<close> loops in all. The
  batches together are the accepted rows, and so is the table: \<open>N\<close> rows, none
  missing, none twice.
\<close>

theorem batch_completeness:
  fixes sd :: "string \<Rightarrow> 'n option" and q :: "('n, 'e) query" and doc :: "'n jsval list"
  defines "rs \<equiv> accepted_rows sd doc"
  defines "st \<equiv> insertData sd q doc"
  assumes ok: "\<forall>k < length rs. q (take k rs) (rs ! k) = None"
  shows "int (length (filter (\<lambda>b. b \<noteq> []) (flushes st)))
           = \<lceil>real (length (filter is_biology doc)) / real batchSize\<rceil>
       \<and> length (flushes st) = length (filter is_biology doc) div batchSize + 1
       \<and> (\<forall>b\<in>set (flushes st). length b \<le> batchSize)
       \<and> concat (flushes st) = rs
       \<and> inserted st = rs
       \<and> length (inserted st) = length (filter is_biology doc)"
proof -
  have N: "length rs = length (filter is_biology doc)" by (simp add: rs_def accepted_rows_def)
  have "insert_all q [] rs = (rs, None)" using insert_all_no_failure[of rs q "[]"] ok by simp
  then obtain F b where F: "flushes st = F @ [b]" "\<forall>x\<in>set F. length x = batchSize"
      "length b < batchSize" "concat F @ b = rs" "inserted st = rs"
    using insertData_cases[of sd q doc] unfolding rs_def st_def by auto
  have len: "length rs = batchSize * length F + length b"
    using F(4) length_concat_uniform[OF F(2)] by (metis length_append)
  have B: "0 < batchSize" by (simp add: batchSize_def)
  have "filter (\<lambda>b. b \<noteq> []) (flushes st) = F @ (if b = [] then [] else [b])"
    using F(1) filter_nonempty_uniform[OF F(2) B] by simp
  then have "int (length (filter (\<lambda>b. b \<noteq> []) (flushes st)))
               = int (length F + (if length b = 0 then 0 else 1))" by simp
  also have "\<dots> = \<lceil>real (batchSize * length F + length b) / real batchSize\<rceil>"
    using ceiling_batches[OF F(3), of "length F"] by simp
  finally have 1: "int (length (filter (\<lambda>b. b \<noteq> []) (flushes st)))
                     = \<lceil>real (length (filter is_biology doc)) / real batchSize\<rceil>"
    using len N by simp
  have 2: "length (flushes st) = length (filter is_biology doc) div batchSize + 1"
    using F(1,3) len N B by simp
  have 3: "\<forall>b\<in>set (flushes st). length b \<le> batchSize" using F(1,2,3) by auto
  have 4: "concat (flushes st) = rs" using F(1,4) by simp
  show ?thesis using 1 2 3 4 F(5) N by simp
qed

theorem batch_completeness_witness:
  "length (filter (\<lambda>b. b \<noteq> []) (flushes (insertData example_sd (\<lambda>t r. None :: string option) example_doc))) = 1
   \<and> length (inserted (insertData example_sd (\<lambda>t r. None :: string option) example_doc)) = 2"
proof -
  have n: "length (filter is_biology example_doc) = 2"
    by (simp add: example_doc_def is_biology_def)
  have c: "\<lceil>real 2 / real batchSize\<rceil> = 1" by (simp add: batchSize_def ceiling_eq_iff)
  show ?thesis
    using batch_completeness[where sd = example_sd and doc = example_doc and q = "\<lambda>t r. None :: string option"] n c
    by (simp add: example_rows)
qed

text \<open>
  C8. When the write of an accepted row \<open>r\<close> is the first that the store refuses, the
  promise is rejected with that error and the table holds the rows before \<open>r\<close> and no
  other: \<open>r\<close> is not passed over for the rows after it. The records taken from the
  stream are at most those of the batch being written, and where the stream was
  destroyed nothing that follows in the input changes the outcome.
\<close>

theorem write_failure_aborts:
  fixes sd :: "string \<Rightarrow> 'n option" and q :: "('n, 'e) query" and doc :: "'n jsval list"
  assumes "accepted_rows sd doc = pre @ r # rest"
    and "\<forall>k < length pre. q (take k pre) (pre ! k) = None"
    and "q pre r = Some e"
  shows "promise (insertData sd q doc) = Some (Rejected (QueryError e))
       \<and> inserted (insertData sd q doc) = pre
       \<and> count (insertData sd q doc) \<le> length pre + batchSize
       \<and> (destroyed (insertData sd q doc) \<longrightarrow>
            (\<forall>later. insertData sd q (doc @ later) = insertData sd q doc))"
proof -
  have "insert_all q [] (accepted_rows sd doc) = (pre, Some e)"
    using insert_all_first_failure[of pre q "[]" r e rest] assms by simp
  then have "promise (insertData sd q doc) = Some (Rejected (QueryError e))
       \<and> inserted (insertData sd q doc) = pre
       \<and> count (insertData sd q doc) \<le> length pre + batchSize"
    using insertData_cases[of sd q doc] by auto
  then show ?thesis using insertData_destroyed[of sd q doc] by blast
qed

theorem write_failure_aborts_witness:
  "promise (insertData example_sd (\<lambda>t r. if length t = 1 then Some ''refused'' else None) example_doc)
     = Some (Rejected (QueryError ''refused''))
   \<and> inserted (insertData example_sd (\<lambda>t r. if length t = 1 then Some ''refused'' else None) example_doc)
     = [row_of example_sd (example_doc ! 0)]"
  using write_failure_aborts[where sd = example_sd and doc = example_doc
      and pre = "[row_of example_sd (example_doc ! 0)]"
      and r = "row_of example_sd (example_doc ! 3)" and rest = "[]"
      and q = "\<lambda>t r. if length t = 1 then Some ''refused'' else None" and e = "''refused''"]
  by (simp add: example_rows)




text \<open>
  C9. The load entry point ends fulfilled on every input: an error of \<open>createTable\<close>
  or \<open>insertData\<close> is caught and logged by \<open>main\<close>, and nothing is rejected or exits
  with a status. The normalize entry point exits with status 1 instead.
\<close>

theorem load_main_absorbs_failure:
  "snd (main_load sd ct q doc) = Fulfilled
   \<and> main_load sd (Some e) q doc
       = ([Error ''Error creating table:'' (QueryError e),
           Error ''Error in main process:'' (QueryError e)], Fulfilled)"
  by (simp add: main_load_def createTable_def split: option.splits settled.splits)

lemma main_normalize_exit: "normalize dst d = Inl e \<Longrightarrow> main_normalize dst d = Exited 1"
  by (simp add: main_normalize_def)

section \<open>Tables and columns\<close>

lemma drop_columns_eq:
  "drop_columns cs t =
     t\<lparr> cols := filter (\<lambda>c. c \<notin> set cs) (cols t),
        rows := map (filter (\<lambda>(k, v). k \<notin> set cs)) (rows t) \<rparr>"
  unfolding drop_columns_def
proof (induction cs arbitrary: t)
  case Nil
  then show ?case by simp
next
  case (Cons c cs)
  have f: "filter (\<lambda>(k, v). k \<notin> set cs) (filter (\<lambda>(k, v). k \<noteq> c) r)
             = filter (\<lambda>(k, v). k \<notin> set (c # cs)) r" for r :: tuple
    by (induction r) auto
  have g: "filter (\<lambda>x. x \<notin> set cs) (removeAll c xs) = filter (\<lambda>x. x \<notin> set (c # cs)) xs"
    for xs :: "string list"
    by (induction xs) auto
  have "fold drop_column (c # cs) t = fold drop_column cs (drop_column c t)" by simp
  also have "\<dots> = (drop_column c t)\<lparr> cols := filter (\<lambda>c. c \<notin> set cs) (cols (drop_column c t)),
        rows := map (filter (\<lambda>(k, v). k \<notin> set cs)) (rows (drop_column c t)) \<rparr>"
    by (rule Cons.IH)
  also have "\<dots> = t\<lparr> cols := filter (\<lambda>x. x \<notin> set (c # cs)) (cols t),
        rows := map (filter (\<lambda>(k, v). k \<notin> set (c # cs))) (rows t) \<rparr>"
    unfolding drop_column_def by (simp add: f g comp_def del: set_simps filter_filter)
  finally show ?case .
qed


section \<open>Inserts that skip conflicts\<close>


lemma sql_eq_sym: "sql_eq a b = sql_eq b a"
  by (auto simp: sql_eq_def)



lemma col_map_cols: "col (map (\<lambda>c. (c, f c)) cs) c = (if c \<in> set cs then f c else Null)"
  by (induction cs) (auto simp: col_def)

lemma col_proposed:
  "col (proposed t tc vs) c =
     (if c \<in> set (cols t)
      then (if c = ''id'' then Integer (nextval t)
            else (case map_of (zip tc vs) c of None \<Rightarrow> Null | Some v \<Rightarrow> v))
      else Null)"
  unfolding proposed_def by (simp add: col_map_cols)


lemma ioc_cols [simp]: "cols (insert_on_conflict key tc vss t) = cols t"
  by (induction vss arbitrary: t) (auto simp: Let_def)

lemma ioc_nextval: "nextval (insert_on_conflict key tc vss t) = nextval t + int (length vss)"
  by (induction vss arbitrary: t) (auto simp: Let_def)







section \<open>The stages of the normalizer\<close>















lemma keys_assign [simp]: "map fst (assign c v r) = map fst r"
  by (induction r) (auto simp: assign_def)


lemma and_then_Inl [simp]: "and_then (Inl e) f = Inl e"
  by (simp add: and_then_def)











lemma ioc_ids_not_null:
  assumes "''id'' \<in> set (cols t)" "\<forall>r\<in>set (rows t). col r ''id'' \<noteq> Null"
  shows "\<forall>r\<in>set (rows (insert_on_conflict key tc vss t)). col r ''id'' \<noteq> Null"
  using assms
proof (induction vss arbitrary: t)
  case Nil
  then show ?case by simp
next
  case (Cons vs vss)
  have n: "col (proposed t tc vs) ''id'' \<noteq> Null" using Cons.prems(1) by (simp add: col_proposed)
  let ?t1 = "t\<lparr> nextval := nextval t + 1 \<rparr>"
  have 1: "\<forall>r\<in>set (rows (insert_on_conflict key tc vss ?t1)). col r ''id'' \<noteq> Null"
    using Cons.prems by (intro Cons.IH) simp_all
  have 2: "\<forall>r\<in>set (rows (insert_on_conflict key tc vss (?t1\<lparr> rows := rows ?t1 @ [proposed t tc vs] \<rparr>))).
             col r ''id'' \<noteq> Null"
    using Cons.prems n by (intro Cons.IH) simp_all
  show ?case using 1 2 by (simp add: Let_def)
qed

lemma first_or_null_found:
  assumes "\<exists>x\<in>set xs. P x"
  shows "\<exists>x\<in>set xs. P x \<and> first_or_null (map f (filter P xs)) = f x"
proof -
  from assms have "filter P xs \<noteq> []" by (simp add: filter_empty_conv)
  then obtain y ys where f: "filter P xs = y # ys" by (cases "filter P xs") simp_all
  then have "y \<in> set (filter P xs)" by simp
  then have y: "y \<in> set xs" "P y" by simp_all
  have "first_or_null (map f (filter P xs)) = f y" by (simp add: f first_or_null_def)
  with y show ?thesis by blast
qed

lemma first_or_null_none: "\<forall>x\<in>set xs. \<not> P x \<Longrightarrow> first_or_null (map f (filter P xs)) = Null"
  by (simp add: first_or_null_def filter_empty_conv[THEN iffD2])














lemma keys_assign_set [simp]: "fst ` set (assign c v r) = fst ` set r"
  using keys_assign[of c v r] by (metis set_map)












lemma fk_not_dropped: "c \<in> set foreign_keys \<Longrightarrow> c \<notin> set dropped_columns"
  by (auto simp: foreign_keys_def dropped_columns_def)









section \<open>Properties of the normalizer\<close>

text \<open>
  C7, as the code has it. After \<open>cleanUpColumns\<close> none of the twelve columns that it
  names is left in \<open>codex_entries\<close>, among them \<open>name\<close>, \<open>system\<close>, \<open>x\<close>, \<open>y\<close>, \<open>z\<close>,
  \<open>body\<close> and \<open>region_name\<close>; a column that was not there is passed over without an
  error. Every other column stays, with its values: the statement does not name
  \<open>category\<close>, \<open>sub_category\<close>, \<open>sub_category_localised\<close> or \<open>english_name\<close>.
\<close>

theorem cleanup_drops_listed_columns:
  assumes "codex_entries d = Some t"
  shows "\<exists>t'. cleanUpColumns d = Inr (d\<lparr> codex_entries := Some t' \<rparr>)
           \<and> cols t' = filter (\<lambda>c. c \<notin> set dropped_columns) (cols t)
           \<and> rows t' = map (filter (\<lambda>(k, v). k \<notin> set dropped_columns)) (rows t)
           \<and> set (cols t') \<inter> {''name'', ''system'', ''x'', ''y'', ''z'', ''body'', ''region_name'',
                 ''region_name_localised'', ''hud_category'', ''category_localized'',
                 ''name_localized'', ''index_id''} = {}
           \<and> (\<forall>c\<in>set [''category'', ''sub_category'', ''sub_category_localised'', ''english_name'',
                        ''latitude'', ''longitude''].
                 c \<in> set (cols t) \<longrightarrow> c \<in> set (cols t'))"
proof -
  let ?t' = "drop_columns dropped_columns t"
  have 1: "cleanUpColumns d = Inr (d\<lparr> codex_entries := Some ?t' \<rparr>)"
    using assms by (simp add: cleanUpColumns_def)
  have 2: "cols ?t' = filter (\<lambda>c. c \<notin> set dropped_columns) (cols t)"
    and 3: "rows ?t' = map (filter (\<lambda>(k, v). k \<notin> set dropped_columns)) (rows t)"
    by (simp_all add: drop_columns_eq)
  have 4: "set (cols ?t') \<inter> {''name'', ''system'', ''x'', ''y'', ''z'', ''body'', ''region_name'',
                 ''region_name_localised'', ''hud_category'', ''category_localized'',
                 ''name_localized'', ''index_id''} = {}"
    unfolding 2 by (auto simp: dropped_columns_def)
  have 5: "\<forall>c\<in>set [''category'', ''sub_category'', ''sub_category_localised'', ''english_name'',
                        ''latitude'', ''longitude''].
                 c \<in> set (cols t) \<longrightarrow> c \<in> set (cols ?t')"
    unfolding 2 by (simp add: dropped_columns_def)
  from 1 2 3 4 5 show ?thesis by blast
qed

theorem cleanup_drops_listed_columns_witness:
  "\<exists>t'. cleanUpColumns example_flat = Inr (example_flat\<lparr> codex_entries := Some t' \<rparr>)
      \<and> ''system'' \<notin> set (cols t') \<and> ''category'' \<in> set (cols t')"
  using cleanup_drops_listed_columns[of example_flat example_table]
  by (auto simp add: example_flat_def example_table_def created_columns_def)

text \<open>The flat table of phase 1 after \<open>cleanUpColumns\<close>: the three category columns are
  still there.\<close>

theorem cleanup_keeps_category_counterexample:
  "cleanUpColumns (createTableQuery empty_db)
     = Inr (empty_db\<lparr> codex_entries := Some \<lparr> cols =
         [''id'', ''english_name'', ''created_at'', ''reported_at'', ''cmdrname'',
          ''latitude'', ''longitude'', ''entryid'', ''category'', ''sub_category'',
          ''sub_category_localised'', ''id64''], rows = [], nextval = 1 \<rparr> \<rparr>)"
  by (simp add: cleanUpColumns_def createTableQuery_def created_columns_def empty_db_def
      new_table_def drop_columns_eq dropped_columns_def)











end
